theory Spec2Isabelle
  imports Main "HOL-Library.Word" "HOL-Library.Multiset"
begin

section \<open>JavaScript values used by \<^verbatim>\<open>clients/vscode/src/commands.ts\<close>\<close>

subsection \<open>Strings\<close>

text \<open>
  A JavaScript string is a sequence of UTF-16 code units. \<open>js\<close> turns an Isabelle
  string literal (whose characters are below 256) into such a sequence; the newline
  character is written \<open>\<newline>\<close> inside a literal.
\<close>

type_synonym code_unit = "16 word"
type_synonym jsstring = "code_unit list"

definition js :: "string \<Rightarrow> jsstring" where
  "js s = map of_char s"

text \<open>ECMAScript \<open>LineTerminator\<close>: LF, CR, LS, PS.\<close>

definition is_line_terminator :: "code_unit \<Rightarrow> bool" where
  "is_line_terminator c \<longleftrightarrow> c = 0x000A \<or> c = 0x000D \<or> c = 0x2028 \<or> c = 0x2029"

text \<open>ECMAScript \<open>WhiteSpace\<close>: TAB, VT, FF, ZWNBSP and the Unicode category Zs.\<close>

definition is_white_space :: "code_unit \<Rightarrow> bool" where
  "is_white_space c \<longleftrightarrow>
     c = 0x0009 \<or> c = 0x000B \<or> c = 0x000C \<or> c = 0xFEFF \<or> c = 0x0020 \<or> c = 0x00A0 \<or>
     c = 0x1680 \<or> (0x2000 \<le> c \<and> c \<le> 0x200A) \<or> c = 0x202F \<or> c = 0x205F \<or> c = 0x3000"

definition is_trimmed_char :: "code_unit \<Rightarrow> bool" where
  "is_trimmed_char c \<longleftrightarrow> is_white_space c \<or> is_line_terminator c"

text \<open>\<^verbatim>\<open>String.prototype.trim\<close>: strips white space and line terminators from both ends.\<close>

definition trim :: "jsstring \<Rightarrow> jsstring" where
  "trim s = rev (dropWhile is_trimmed_char (rev (dropWhile is_trimmed_char s)))"

text \<open>\<^verbatim>\<open>String.prototype.startsWith\<close> (position 0).\<close>

definition startsWith :: "jsstring \<Rightarrow> jsstring \<Rightarrow> bool" where
  "startsWith s p \<longleftrightarrow> take (length p) s = p"

subsection \<open>\<^verbatim>\<open>diff.split(/\n(?=diff)/)\<close>\<close>

text \<open>
  \<^verbatim>\<open>RegExp.prototype[@@split]\<close> walks the string with two indices: \<open>p\<close>, the end of
  the last separator, and \<open>q\<close>, the position tried next. \<open>cur\<close> is the text between
  \<open>p\<close> and \<open>q\<close>, the second argument the text from \<open>q\<close> on. The pattern matches at
  \<open>q\<close> when the code unit there is LF and the four code units after it are \<open>diff\<close>
  (a lookahead, which is not consumed): the separator is the single LF, it is not
  part of any piece, and the scan goes on behind it. The pattern has no capture
  group, so nothing else is spliced into the result; at the end of the string the
  rest is the last piece. On the empty string the pattern cannot match and the result
  is the one-element array holding the empty string.
\<close>

fun split_loop :: "jsstring \<Rightarrow> jsstring \<Rightarrow> jsstring list" where
  "split_loop cur [] = [cur]"
| "split_loop cur (c # cs) =
     (if c = 0x000A \<and> take 4 cs = js ''diff'' then cur # split_loop [] cs
      else split_loop (cur @ [c]) cs)"

definition split_diff :: "jsstring \<Rightarrow> jsstring list" where
  "split_diff s = split_loop [] s"

text \<open>The number of positions at which the separator pattern matches.\<close>

fun count_boundaries :: "jsstring \<Rightarrow> nat" where
  "count_boundaries [] = 0"
| "count_boundaries (c # cs) =
     (if c = 0x000A \<and> take 4 cs = js ''diff'' then Suc (count_boundaries cs)
      else count_boundaries cs)"

text \<open>\<^verbatim>\<open>Array.prototype.join\<close> with an explicit separator.\<close>

fun join :: "jsstring \<Rightarrow> jsstring list \<Rightarrow> jsstring" where
  "join sep [] = []"
| "join sep [x] = x"
| "join sep (x # y # ys) = x @ sep @ join sep (y # ys)"

subsection \<open>\<^verbatim>\<open>/diff --git a\/.* b\/(.*)$/gm.exec(item)?.[1]\<close>\<close>

text \<open>
  The regular expression literal is evaluated anew for each chunk, so \<open>lastIndex\<close> is 0
  and the search is for the leftmost match. The functions follow the backtracking
  matcher from the inside out.

  \<open>match_b\<close> is \<^verbatim>\<open> b\/(.*)$\<close> at the current position: after the three code
  units \<^verbatim>\<open> b/\<close> the greedy \<^verbatim>\<open>(.*)\<close> takes every code unit up to the next line
  terminator, where the multiline \<^verbatim>\<open>$\<close> holds; the result is capture group 1.
\<close>

definition match_b :: "jsstring \<Rightarrow> jsstring option" where
  "match_b s =
     (if startsWith s (js '' b/'')
      then Some (takeWhile (\<lambda>c. \<not> is_line_terminator c) (drop 3 s))
      else None)"

text \<open>
  \<open>match_dot_star\<close> is \<^verbatim>\<open>.* b\/(.*)$\<close>: the greedy \<^verbatim>\<open>.*\<close> first takes one more
  code unit (never a line terminator) and gives it back only when the rest fails
  behind it.
\<close>

fun match_dot_star :: "jsstring \<Rightarrow> jsstring option" where
  "match_dot_star [] = match_b []"
| "match_dot_star (c # cs) =
     (if is_line_terminator c then match_b (c # cs)
      else (case match_dot_star cs of
              Some r \<Rightarrow> Some r
            | None \<Rightarrow> match_b (c # cs)))"

definition match_at :: "jsstring \<Rightarrow> jsstring option" where
  "match_at s =
     (if startsWith s (js ''diff --git a/'') then match_dot_star (drop 13 s) else None)"

text \<open>The leftmost start position wins; \<open>None\<close> is the \<^verbatim>\<open>undefined\<close> of \<^verbatim>\<open>?.[1]\<close>.\<close>

fun regex_exec :: "jsstring \<Rightarrow> jsstring option" where
  "regex_exec [] = match_at []"
| "regex_exec (c # cs) =
     (case match_at (c # cs) of
        Some r \<Rightarrow> Some r
      | None \<Rightarrow> regex_exec cs)"

subsection \<open>Exceptions and promises\<close>

text \<open>
  A thrown value is \<^verbatim>\<open>null\<close>/\<^verbatim>\<open>undefined\<close> or a value whose \<^verbatim>\<open>name\<close> property
  is read by the \<^verbatim>\<open>catch\<close> block: \<open>Some n\<close> when it is the string \<open>n\<close>, \<open>None\<close>
  when it is anything else. A call that may throw, and an awaited promise that may
  reject, yield a \<open>completion\<close>. Every awaited promise of a collaborator is taken
  to settle; one that stays pending for ever is not modelled.
\<close>

datatype thrown = ThrownNullish | ThrownObject "jsstring option"

datatype 'a completion = Returns 'a | Throws thrown

text \<open>
  \<^verbatim>\<open>await Promise.all(promises)\<close>: the array of the results, in the order of the
  promises, when every promise is fulfilled. When some promise rejects, the await
  throws the reason of the promise that rejected first in time; the model takes the
  first one in array order.
\<close>

fun promise_all :: "'a completion list \<Rightarrow> 'a list completion" where
  "promise_all [] = Returns []"
| "promise_all (Returns x # rs) =
     (case promise_all rs of
        Returns xs \<Rightarrow> Returns (x # xs)
      | Throws e \<Rightarrow> Throws e)"
| "promise_all (Throws e # rs) = Throws e"

subsection \<open>\<^verbatim>\<open>Array.prototype.sort\<close> with a comparison function\<close>

text \<open>
  ECMAScript requires the sort to be stable, and the result to be ordered by the
  comparison function when that function is a consistent comparator; the two together
  determine the result. The model is the insertion sort that takes the elements from
  left to right and puts each one in front of the first element of the sorted part
  that it is strictly less than (\<open>cmp x y < 0\<close>), hence behind everything it compares
  equal to. For a comparison function that is not consistent the order is left to the
  engine; the model then gives what this insertion sort does.
\<close>

fun insert_sorted :: "('a \<Rightarrow> 'a \<Rightarrow> int) \<Rightarrow> 'a \<Rightarrow> 'a list \<Rightarrow> 'a list" where
  "insert_sorted cmp x [] = [x]"
| "insert_sorted cmp x (y # ys) =
     (if cmp x y < 0 then x # y # ys else y # insert_sorted cmp x ys)"

definition js_sort :: "('a \<Rightarrow> 'a \<Rightarrow> int) \<Rightarrow> 'a list \<Rightarrow> 'a list" where
  "js_sort cmp xs = foldl (\<lambda>sorted_part x. insert_sorted cmp x sorted_part) [] xs"

section \<open>The command \<^verbatim>\<open>tabby.experimental.chat.generateCommitMessage\<close>\<close>

subsection \<open>The repository, the host and what the command does to them\<close>

text \<open>
  A repository of the Git extension, as far as the command reads it: the file system
  path of its root, the selection flag of its UI, what \<^verbatim>\<open>repo.diff(true)\<close> (staged)
  and \<^verbatim>\<open>repo.diff(false)\<close> (unstaged) resolve to, and the text of its commit input
  box. Repositories are objects; the model refers to one by its index in
  \<^verbatim>\<open>gitApi.repositories\<close>.
\<close>

record repository =
  rootUri_fsPath :: jsstring
  ui_selected :: bool
  diff_cached :: "jsstring completion"
  diff_uncached :: "jsstring completion"
  inputBox_value :: jsstring

text \<open>
  An entry of the quick pick. \<open>item_value\<close> is the field \<^verbatim>\<open>value: repo\<close>; the constant
  fields \<^verbatim>\<open>iconPath\<close> and \<^verbatim>\<open>alwaysShow\<close> are left out.
\<close>

record quick_pick_item =
  label :: jsstring
  detail :: jsstring
  picked :: bool
  item_value :: nat

text \<open>
  The collaborators that are not part of this file and are taken as parameters:
  \<^verbatim>\<open>path.basename\<close>, \<^verbatim>\<open>String.prototype.localeCompare\<close> (its result depends on the
  collation of the host), the answer of the user to the quick pick (the index of the
  chosen entry, \<open>None\<close> when the pick is dismissed),
  \<^verbatim>\<open>workspace.fs.stat(Uri.joinPath(repo.rootUri, filepath)).mtime\<close> as a function of the
  root and the path (milliseconds since the epoch, an integer), and
  \<^verbatim>\<open>agent().generateCommitMessage(diffs, { signal })\<close>, which may reject, as it is
  expected to when the signal is aborted.
\<close>

record host =
  basename :: "jsstring \<Rightarrow> jsstring"
  localeCompare :: "jsstring \<Rightarrow> jsstring \<Rightarrow> int"
  showQuickPick :: "quick_pick_item list \<Rightarrow> nat option"
  fs_stat_mtime :: "jsstring \<Rightarrow> jsstring \<Rightarrow> int completion"
  agent_generateCommitMessage :: "jsstring list \<Rightarrow> jsstring completion"

text \<open>The calls the command makes on its collaborators, in the order it makes them.\<close>

datatype commit_event =
    ShowInformationMessage jsstring
  | ShowQuickPick "quick_pick_item list"
  | RepoDiff nat bool
  | ExecuteCommand jsstring
  | WithProgress jsstring
  | FsStat jsstring jsstring
  | AgentGenerateCommitMessage "jsstring list"
  | SetInputBoxValue nat jsstring

text \<open>
  The outcome of one invocation: the calls made, the repositories afterwards, and how
  the invocation ended. The progress callback is not awaited by the command, so an
  exception in it is the rejection of the promise of \<^verbatim>\<open>window.withProgress\<close>;
  \<open>completion\<close> reports it all the same.
\<close>

record commit_result =
  events :: "commit_event list"
  repos_after :: "repository list"
  completion :: "unit completion"

subsection \<open>Selecting the repository\<close>

text \<open>The comparison function given to \<^verbatim>\<open>sort\<close>.\<close>

definition compare_items ::
  "(jsstring \<Rightarrow> jsstring \<Rightarrow> int) \<Rightarrow> quick_pick_item \<Rightarrow> quick_pick_item \<Rightarrow> int" where
  "compare_items lc a b =
     (if startsWith (detail a) (detail b) then 1
      else if startsWith (detail b) (detail a) then - 1
      else lc (label a) (label b))"

definition quick_pick_items :: "host \<Rightarrow> repository list \<Rightarrow> quick_pick_item list" where
  "quick_pick_items h repos =
     js_sort (compare_items (localeCompare h))
       (map (\<lambda>(i, repo).
               \<lparr>label = basename h (rootUri_fsPath repo),
                detail = rootUri_fsPath repo,
                picked = ui_selected repo,
                item_value = i\<rparr>)
            (enumerate 0 repos))"

text \<open>
  \<open>select_repo\<close> is called with at least one repository. \<open>None\<close> is
  \<^verbatim>\<open>selectedRepo === undefined\<close>.
\<close>

definition select_repo :: "host \<Rightarrow> repository list \<Rightarrow> commit_event list \<times> nat option" where
  "select_repo h repos =
     (if length repos = 1 then ([], Some 0)
      else
        (let items = quick_pick_items h repos in
         ([ShowQuickPick items],
          (case showQuickPick h items of
             None \<Rightarrow> None
           | Some k \<Rightarrow> if k < length items then Some (item_value (items ! k)) else None))))"

subsection \<open>Getting the diff\<close>

text \<open>
  \<open>Returns d\<close> is the value of the variable \<^verbatim>\<open>diff\<close> after the first \<^verbatim>\<open>if\<close>:
  the trimmed staged diff, or the trimmed unstaged diff when the former is empty.
\<close>

definition get_diff :: "nat \<Rightarrow> repository \<Rightarrow> commit_event list \<times> jsstring completion" where
  "get_diff i repo =
     (case diff_cached repo of
        Throws e \<Rightarrow> ([RepoDiff i True], Throws e)
      | Returns staged \<Rightarrow>
          if length (trim staged) < 1 then
            (case diff_uncached repo of
               Throws e \<Rightarrow> ([RepoDiff i True, RepoDiff i False], Throws e)
             | Returns unstaged \<Rightarrow> ([RepoDiff i True, RepoDiff i False], Returns (trim unstaged)))
          else ([RepoDiff i True], Returns (trim staged)))"

subsection \<open>Splitting the diff and sorting the chunks by priority\<close>

record diff_with_priority =
  diff :: jsstring
  priority :: int

definition MAX_SAFE_INTEGER :: int where
  "MAX_SAFE_INTEGER = 2 ^ 53 - 1"

text \<open>
  The asynchronous function mapped over the chunks. \<open>stat\<close> is the lookup of the
  modification time below the root of the repository. An empty captured path is falsy,
  like a missing one. The \<^verbatim>\<open>await\<close> of the lookup is not inside a \<^verbatim>\<open>try\<close>.
\<close>

definition chunk_priority ::
  "(jsstring \<Rightarrow> int completion) \<Rightarrow> jsstring \<Rightarrow> jsstring list \<times> diff_with_priority completion" where
  "chunk_priority stat item =
     (case regex_exec item of
        None \<Rightarrow> ([], Returns \<lparr>diff = item, priority = MAX_SAFE_INTEGER\<rparr>)
      | Some filepath \<Rightarrow>
          if filepath = [] then ([], Returns \<lparr>diff = item, priority = MAX_SAFE_INTEGER\<rparr>)
          else
            (case stat filepath of
               Returns mtime \<Rightarrow> ([filepath], Returns \<lparr>diff = item, priority = mtime\<rparr>)
             | Throws e \<Rightarrow> ([filepath], Throws e)))"

text \<open>
  \<^verbatim>\<open>map\<close> starts the function on every chunk before anything is awaited, so every
  lookup is issued (the first component lists the paths looked up, in chunk order).
\<close>

definition diffsWithPriority ::
  "(jsstring \<Rightarrow> int completion) \<Rightarrow> jsstring \<Rightarrow> jsstring list \<times> diff_with_priority list completion" where
  "diffsWithPriority stat d =
     (let started = map (chunk_priority stat) (split_diff d)
      in (concat (map fst started), promise_all (map snd started)))"

definition sort_diffs :: "diff_with_priority list \<Rightarrow> jsstring list" where
  "sort_diffs dwp = map diff (js_sort (\<lambda>a b. priority a - priority b) dwp)"

definition prioritize ::
  "(jsstring \<Rightarrow> int completion) \<Rightarrow> jsstring \<Rightarrow> jsstring list \<times> jsstring list completion" where
  "prioritize stat d =
     (case diffsWithPriority stat d of
        (looked_up, Throws e) \<Rightarrow> (looked_up, Throws e)
      | (looked_up, Returns dwp) \<Rightarrow> (looked_up, Returns (sort_diffs dwp)))"

subsection \<open>The command\<close>

text \<open>The callback of \<^verbatim>\<open>window.withProgress\<close>, for the repository with index \<open>i\<close>.\<close>

definition progress_callback ::
  "host \<Rightarrow> repository list \<Rightarrow> nat \<Rightarrow> jsstring \<Rightarrow> commit_result" where
  "progress_callback h repos i d =
     (let root = rootUri_fsPath (repos ! i) in
      case prioritize (fs_stat_mtime h root) d of
        (looked_up, Throws e) \<Rightarrow>
          \<lparr>events = map (FsStat root) looked_up, repos_after = repos, completion = Throws e\<rparr>
      | (looked_up, Returns diffs) \<Rightarrow>
          (case agent_generateCommitMessage h diffs of
             Throws e \<Rightarrow>
               \<lparr>events = map (FsStat root) looked_up @ [AgentGenerateCommitMessage diffs],
                repos_after = repos, completion = Throws e\<rparr>
           | Returns message \<Rightarrow>
               \<lparr>events = map (FsStat root) looked_up @
                   [AgentGenerateCommitMessage diffs, SetInputBoxValue i message],
                repos_after = repos[i := (repos ! i)\<lparr>inputBox_value := message\<rparr>],
                completion = Returns ()\<rparr>))"

definition generateCommitMessage :: "host \<Rightarrow> repository list option \<Rightarrow> commit_result" where
  "generateCommitMessage h gitApi_repositories =
     (let repos = (case gitApi_repositories of None \<Rightarrow> [] | Some rs \<Rightarrow> rs) in
      if length repos < 1 then
        \<lparr>events = [ShowInformationMessage (js ''No Git repositories found.'')],
         repos_after = repos, completion = Returns ()\<rparr>
      else
        (case select_repo h repos of
           (picking, None) \<Rightarrow> \<lparr>events = picking, repos_after = repos, completion = Returns ()\<rparr>
         | (picking, Some i) \<Rightarrow>
             (case get_diff i (repos ! i) of
                (diffing, Throws e) \<Rightarrow>
                  \<lparr>events = picking @ diffing, repos_after = repos, completion = Throws e\<rparr>
              | (diffing, Returns d) \<Rightarrow>
                  if length d < 1 then
                    \<lparr>events = picking @ diffing, repos_after = repos, completion = Returns ()\<rparr>
                  else
                    (let r = progress_callback h repos i d in
                     r\<lparr>events :=
                         picking @ diffing @
                         [ExecuteCommand (js ''workbench.view.scm''),
                          WithProgress (js ''Generating commit message...'')] @
                         events r\<rparr>))))"

section \<open>The command \<^verbatim>\<open>tabby.openAuthPage\<close>\<close>

text \<open>
  What the callback of \<^verbatim>\<open>window.withProgress\<close> meets: the two optional hooks of the
  argument \<^verbatim>\<open>callbacks\<close> (\<open>None\<close> when the hook, or the whole argument, is missing;
  otherwise whether the call returns or throws), what
  \<^verbatim>\<open>await agent().requestAuthUrl({ signal })\<close> yields (\<open>Returns None\<close> is \<^verbatim>\<open>null\<close>), what
  \<^verbatim>\<open>await agent().waitForAuthToken(code, { signal })\<close> yields, and what
  \<^verbatim>\<open>agent().getStatus()\<close> returns in the \<^verbatim>\<open>else if\<close> and in the \<^verbatim>\<open>assert\<close>. An
  agent call that is cut short by the abort signal is expected to reject with an
  error named \<^verbatim>\<open>AbortError\<close>, which is what the \<^verbatim>\<open>catch\<close> block looks for.
\<close>

record auth_url =
  authUrl :: jsstring
  code :: jsstring

record auth_env =
  onAuthStart :: "unit completion option"
  onAuthEnd :: "unit completion option"
  requestAuthUrl :: "auth_url option completion"
  waitForAuthToken :: "jsstring \<Rightarrow> unit completion"
  getStatus_without_url :: jsstring
  getStatus_after_token :: jsstring

datatype auth_event =
    OnAuthStart
  | OnAuthEnd
  | ProgressReport jsstring
  | RequestAuthUrl
  | OpenExternal jsstring
  | WaitForAuthToken jsstring
  | GetStatus
  | ShowInformationAuthSuccess
  | ShowInformationWhenStartAuthButAlreadyAuthorized
  | ShowInformationWhenAuthFailed

text \<open>
  The terminal states of the specification's state machine. The code returns
  \<^verbatim>\<open>undefined\<close> on every path; the model tags the path taken: the branch that shows
  the success notice or the already-authorized notice ends in \<open>Succeeded\<close>, a branch
  that shows the failure notice in \<open>Failed\<close>, the silent \<^verbatim>\<open>return\<close> of the
  \<^verbatim>\<open>catch\<close> block in \<open>Cancelled\<close>.
\<close>

datatype terminal = Succeeded | Failed | Cancelled

record auth_result =
  auth_events :: "auth_event list"
  reached :: "terminal option"
  auth_completion :: "unit completion"

text \<open>\<^verbatim>\<open>callbacks?.hook?.()\<close>\<close>

definition call_hook :: "auth_event \<Rightarrow> unit completion option \<Rightarrow> auth_event list \<times> unit completion" where
  "call_hook ev hook = (case hook of None \<Rightarrow> ([], Returns ()) | Some r \<Rightarrow> ([ev], r))"

definition is_notification :: "auth_event \<Rightarrow> bool" where
  "is_notification ev \<longleftrightarrow>
     ev = ShowInformationAuthSuccess \<or>
     ev = ShowInformationWhenStartAuthButAlreadyAuthorized \<or>
     ev = ShowInformationWhenAuthFailed"

definition try_block :: "auth_env \<Rightarrow> auth_event list \<times> terminal completion" where
  "try_block env =
     (case call_hook OnAuthStart (onAuthStart env) of
        (started, Throws e) \<Rightarrow> (started, Throws e)
      | (started, Returns _) \<Rightarrow>
          (let requesting =
                 started @ [ProgressReport (js ''Generating authorization url...''), RequestAuthUrl]
           in
           case requestAuthUrl env of
             Throws e \<Rightarrow> (requesting, Throws e)
           | Returns (Some url) \<Rightarrow>
               (let waiting =
                      requesting @
                      [OpenExternal (authUrl url),
                       ProgressReport (js ''Waiting for authorization from browser...''),
                       WaitForAuthToken (code url)]
                in
                case waitForAuthToken env (code url) of
                  Throws e \<Rightarrow> (waiting, Throws e)
                | Returns _ \<Rightarrow>
                    if getStatus_after_token env = js ''ready''
                    then (waiting @ [GetStatus, ShowInformationAuthSuccess], Returns Succeeded)
                    else (waiting @ [GetStatus],
                          Throws (ThrownObject (Some (js ''AssertionError'')))))
           | Returns None \<Rightarrow>
               if getStatus_without_url env = js ''ready''
               then (requesting @ [GetStatus, ShowInformationWhenStartAuthButAlreadyAuthorized],
                     Returns Succeeded)
               else (requesting @ [GetStatus, ShowInformationWhenAuthFailed], Returns Failed)))"

text \<open>
  The \<^verbatim>\<open>catch\<close> block. Reading \<^verbatim>\<open>error.name\<close> of \<^verbatim>\<open>null\<close> or \<^verbatim>\<open>undefined\<close>
  throws a \<^verbatim>\<open>TypeError\<close> out of the block.
\<close>

definition catch_block :: "thrown \<Rightarrow> auth_event list \<times> terminal completion" where
  "catch_block error =
     (case error of
        ThrownNullish \<Rightarrow> ([], Throws (ThrownObject (Some (js ''TypeError''))))
      | ThrownObject name \<Rightarrow>
          if name = Some (js ''AbortError'') then ([], Returns Cancelled)
          else ([ShowInformationWhenAuthFailed], Returns Failed))"

text \<open>
  \<^verbatim>\<open>try\<close>, \<^verbatim>\<open>catch\<close>, \<^verbatim>\<open>finally\<close>: the \<^verbatim>\<open>finally\<close> block runs after either of
  the others however they end, and an exception of its own replaces their result.
\<close>

definition openAuthPage :: "auth_env \<Rightarrow> auth_result" where
  "openAuthPage env =
     (let (tried, r1) = try_block env;
          (caught, r2) = (case r1 of Returns t \<Rightarrow> ([], Returns t) | Throws e \<Rightarrow> catch_block e);
          (ended, r3) = call_hook OnAuthEnd (onAuthEnd env)
      in \<lparr>auth_events = tried @ caught @ ended,
          reached = (case r2 of Returns t \<Rightarrow> Some t | Throws e \<Rightarrow> None),
          auth_completion =
            (case r3 of
               Throws e \<Rightarrow> Throws e
             | Returns _ \<Rightarrow> (case r2 of Returns t \<Rightarrow> Returns () | Throws e \<Rightarrow> Throws e))\<rparr>)"

section \<open>Example collaborators and inputs\<close>

text \<open>
  Concrete values on which the definitions above are evaluated further down.
  \<open>far_future_stat\<close> reports the modification time \<open>2 ^ 53\<close> milliseconds for every
  path, one millisecond above \<^verbatim>\<open>Number.MAX_SAFE_INTEGER\<close>.
\<close>

definition far_future_stat :: "jsstring \<Rightarrow> int completion" where
  "far_future_stat p = Returns (2 ^ 53)"

text \<open>
  Three chunks as \<open>sort_diffs\<close> receives them: one without a resolved path, then two
  with the same modification time.
\<close>

definition three_chunks :: "diff_with_priority list" where
  "three_chunks =
     [\<lparr>diff = js ''diff --cc x'', priority = MAX_SAFE_INTEGER\<rparr>,
      \<lparr>diff = js ''diff --git a/b b/b'', priority = 1700000000000\<rparr>,
      \<lparr>diff = js ''diff --git a/a b/a'', priority = 1700000000000\<rparr>]"

text \<open>
  \<^verbatim>\<open>path.basename\<close> on POSIX paths, and a comparison of strings by code units, which
  orders words of lower-case ASCII letters as the root collation of
  \<^verbatim>\<open>localeCompare\<close> does.
\<close>

definition posix_basename :: "jsstring \<Rightarrow> jsstring" where
  "posix_basename p =
     rev (takeWhile (\<lambda>c. c \<noteq> 0x002F) (dropWhile (\<lambda>c. c = 0x002F) (rev p)))"

fun compare_code_units :: "jsstring \<Rightarrow> jsstring \<Rightarrow> int" where
  "compare_code_units [] [] = 0"
| "compare_code_units [] (y # ys) = - 1"
| "compare_code_units (x # xs) [] = 1"
| "compare_code_units (x # xs) (y # ys) =
     (if x < y then - 1 else if y < x then 1 else compare_code_units xs ys)"

text \<open>
  A host with these two, a user who dismisses the quick pick, a file system in which
  \<^verbatim>\<open>gone.txt\<close> does not exist, and an agent that answers. The repository below
  has the deletion of \<^verbatim>\<open>gone.txt\<close> staged together with a change of
  \<^verbatim>\<open>kept.txt\<close>.
\<close>

definition posix_host :: host where
  "posix_host =
     \<lparr>basename = posix_basename,
      localeCompare = compare_code_units,
      showQuickPick = (\<lambda>items. None),
      fs_stat_mtime = (\<lambda>root p.
        if p = js ''gone.txt''
        then Throws (ThrownObject (Some (js ''EntryNotFound (FileSystemError)'')))
        else Returns 1700000000000),
      agent_generateCommitMessage = (\<lambda>diffs. Returns (js ''update kept.txt''))\<rparr>"


text \<open>
  Three repositories in the order in which the Git extension lists them: a
  repository, an unrelated one, and one nested in the first.
\<close>

definition nested_repos :: "repository list" where
  "nested_repos =
     [\<lparr>rootUri_fsPath = js ''/work/zeta'', ui_selected = True,
       diff_cached = Returns [], diff_uncached = Returns [], inputBox_value = []\<rparr>,
      \<lparr>rootUri_fsPath = js ''/work/mid'', ui_selected = False,
       diff_cached = Returns [], diff_uncached = Returns [], inputBox_value = []\<rparr>,
      \<lparr>rootUri_fsPath = js ''/work/zeta/api'', ui_selected = False,
       diff_cached = Returns [], diff_uncached = Returns [], inputBox_value = []\<rparr>]"

text \<open>
  A repository without changes, one whose staged diff is white space only and whose
  unstaged diff has white space around it, and one whose two diffs are white space
  only.
\<close>

definition clean_repo :: repository where
  "clean_repo =
     \<lparr>rootUri_fsPath = js ''/work/app'', ui_selected = True,
      diff_cached = Returns [], diff_uncached = Returns [],
      inputBox_value = js ''wip''\<rparr>"

definition padded_repo :: repository where
  "padded_repo =
     \<lparr>rootUri_fsPath = js ''/work/app'', ui_selected = True,
      diff_cached = Returns (js '' \<newline>''),
      diff_uncached = Returns (js ''\<newline>diff --git a/kept.txt b/kept.txt\<newline>+1\<newline>\<newline>''),
      inputBox_value = js ''wip''\<rparr>"

definition blank_repo :: repository where
  "blank_repo =
     \<lparr>rootUri_fsPath = js ''/work/app'', ui_selected = True,
      diff_cached = Returns (js '' \<newline>''), diff_uncached = Returns (js ''\<newline>\<newline>''),
      inputBox_value = js ''wip''\<rparr>"

text \<open>
  Two runs of the authorization: the user cancels while the token is awaited, and
  the agent is authorized already.
\<close>

definition cancelled_env :: auth_env where
  "cancelled_env =
     \<lparr>onAuthStart = Some (Returns ()),
      onAuthEnd = Some (Returns ()),
      requestAuthUrl = Returns (Some \<lparr>authUrl = js ''https://app.tabbyml.com/auth'', code = js ''c0de''\<rparr>),
      waitForAuthToken = (\<lambda>c. Throws (ThrownObject (Some (js ''AbortError'')))),
      getStatus_without_url = js ''unauthorized'',
      getStatus_after_token = js ''unauthorized''\<rparr>"

definition authorized_env :: auth_env where
  "authorized_env =
     \<lparr>onAuthStart = Some (Returns ()),
      onAuthEnd = Some (Returns ()),
      requestAuthUrl = Returns None,
      waitForAuthToken = (\<lambda>c. Returns ()),
      getStatus_without_url = js ''ready'',
      getStatus_after_token = js ''ready''\<rparr>"

section \<open>Properties of the split\<close>

lemma split_loop_nonempty: "split_loop cur s \<noteq> []"
  by (induction s arbitrary: cur) auto

lemma join_Cons: "ys \<noteq> [] \<Longrightarrow> join sep (x # ys) = x @ sep @ join sep ys"
  by (cases ys) auto

lemma join_split_loop: "join [0x000A] (split_loop cur s) = cur @ s"
  by (induction s arbitrary: cur) (auto simp: join_Cons split_loop_nonempty)

lemma length_split_loop: "length (split_loop cur s) = Suc (count_boundaries s)"
  by (induction s arbitrary: cur) auto

lemma length_concat_split_loop:
  "length (concat (split_loop cur s)) + count_boundaries s = length cur + length s"
  by (induction s arbitrary: cur) auto

lemma split_loop_no_boundary: "count_boundaries s = 0 \<Longrightarrow> split_loop cur s = [cur @ s]"
  by (induction s arbitrary: cur) (auto split: if_splits)

lemma js_newline: "js ''\<newline>'' = [0x000A]"
  by (simp add: js_def)

text \<open>
  Claim C1 says that concatenating the chunks of the split gives the diff back. The
  split drops the line feed in front of every \<^verbatim>\<open>diff\<close> at which it cuts, so that
  fails as soon as the diff has two files: the two-file diff below loses one code unit.
\<close>

theorem split_diff_concat_counterexample:
  "concat (split_diff (js ''diff --git a/x b/x\<newline>+1\<newline>diff --git a/y b/y\<newline>-2'')) \<noteq>
     js ''diff --git a/x b/x\<newline>+1\<newline>diff --git a/y b/y\<newline>-2''"
  by (simp add: split_diff_def js_def)

text \<open>
  Claim C1, amended: for every diff string \<open>D\<close>, joining the chunks of the split in
  their order with a single line feed between neighbours gives \<open>D\<close> back exactly. There
  is one chunk more than there are boundaries, the concatenation of the chunks is
  shorter than \<open>D\<close> by one code unit for each boundary (the line feed consumed there),
  and it equals \<open>D\<close> exactly when \<open>D\<close> has no boundary.
\<close>

theorem split_diff_join_newline:
  "join (js ''\<newline>'') (split_diff D) = D \<and>
   length (split_diff D) = Suc (count_boundaries D) \<and>
   length (concat (split_diff D)) + count_boundaries D = length D \<and>
   (concat (split_diff D) = D \<longleftrightarrow> count_boundaries D = 0)"
proof -
  have j: "join (js ''\<newline>'') (split_diff D) = D"
    by (simp add: split_diff_def js_newline join_split_loop)
  have n: "length (split_diff D) = Suc (count_boundaries D)"
    by (simp add: split_diff_def length_split_loop)
  have l: "length (concat (split_diff D)) + count_boundaries D = length D"
    using length_concat_split_loop [of "[]" D] by (simp add: split_diff_def)
  have c: "concat (split_diff D) = D \<longleftrightarrow> count_boundaries D = 0"
  proof
    assume "concat (split_diff D) = D"
    with l show "count_boundaries D = 0" by simp
  next
    assume "count_boundaries D = 0"
    then show "concat (split_diff D) = D"
      by (simp add: split_diff_def split_loop_no_boundary)
  qed
  from j n l c show ?thesis by blast
qed

theorem split_diff_join_newline_witness:
  "join (js ''\<newline>'') (split_diff (js ''diff --git a/x b/x\<newline>+1\<newline>diff --git a/y b/y\<newline>-2'')) =
     js ''diff --git a/x b/x\<newline>+1\<newline>diff --git a/y b/y\<newline>-2'' \<and>
   split_diff (js ''diff --git a/x b/x\<newline>+1\<newline>diff --git a/y b/y\<newline>-2'') =
     [js ''diff --git a/x b/x\<newline>+1'', js ''diff --git a/y b/y\<newline>-2'']"
  using split_diff_join_newline [of "js ''diff --git a/x b/x\<newline>+1\<newline>diff --git a/y b/y\<newline>-2''"]
  by (simp add: split_diff_def js_def)

section \<open>Properties of the sort\<close>

lemma js_sort_Nil: "js_sort cmp [] = []"
  by (simp add: js_sort_def)

lemma js_sort_snoc: "js_sort cmp (xs @ [x]) = insert_sorted cmp x (js_sort cmp xs)"
  by (simp add: js_sort_def)

lemma mset_insert_sorted: "mset (insert_sorted cmp x ys) = add_mset x (mset ys)"
  by (induction ys) auto

lemma mset_js_sort: "mset (js_sort cmp xs) = mset xs"
  by (induction xs rule: rev_induct) (auto simp: js_sort_Nil js_sort_snoc mset_insert_sorted)

lemma set_insert_sorted: "set (insert_sorted cmp x ys) = insert x (set ys)"
  by (induction ys) auto

text \<open>With the comparison function \<open>\<lambda>a b. f a - f b\<close> the sort orders by the key \<open>f\<close>.\<close>

lemma sorted_insert_sorted:
  fixes f :: "'a \<Rightarrow> int"
  shows "sorted (map f ys) \<Longrightarrow> sorted (map f (insert_sorted (\<lambda>a b. f a - f b) x ys))"
  by (induction ys) (auto simp: set_insert_sorted)

lemma sorted_js_sort:
  fixes f :: "'a \<Rightarrow> int"
  shows "sorted (map f (js_sort (\<lambda>a b. f a - f b) xs))"
  by (induction xs rule: rev_induct) (auto simp: js_sort_Nil js_sort_snoc sorted_insert_sorted)

text \<open>
  Stability: the new element goes behind the elements of the sorted part that have
  its key.
\<close>

lemma filter_insert_sorted:
  fixes f :: "'a \<Rightarrow> int"
  shows "sorted (map f ys) \<Longrightarrow>
    filter (\<lambda>y. f y = k) (insert_sorted (\<lambda>a b. f a - f b) x ys) =
    filter (\<lambda>y. f y = k) ys @ (if f x = k then [x] else [])"
proof (induction ys)
  case Nil
  then show ?case by simp
next
  case (Cons y ys)
  show ?case
  proof (cases "f x < f y")
    case True
    have "\<forall>z\<in>set (y # ys). f x < f z"
      using Cons.prems True by auto
    then have "filter (\<lambda>z. f z = f x) (y # ys) = []"
      by (auto simp: filter_empty_conv)
    with True show ?thesis by auto
  next
    case False
    with Cons show ?thesis by auto
  qed
qed

lemma filter_js_sort:
  fixes f :: "'a \<Rightarrow> int"
  shows "filter (\<lambda>y. f y = k) (js_sort (\<lambda>a b. f a - f b) xs) = filter (\<lambda>y. f y = k) xs"
  by (induction xs rule: rev_induct)
     (auto simp: js_sort_Nil js_sort_snoc filter_insert_sorted sorted_js_sort)

lemma js_sort_eq_sort_key:
  fixes f :: "'a \<Rightarrow> int"
  shows "js_sort (\<lambda>a b. f a - f b) xs = sort_key f xs"
proof (rule sym, rule properties_for_sort_key)
  show "mset (js_sort (\<lambda>a b. f a - f b) xs) = mset xs"
    by (rule mset_js_sort)
  show "sorted (map f (js_sort (\<lambda>a b. f a - f b) xs))"
    by (rule sorted_js_sort)
  fix k
  show "filter (\<lambda>x. f k = f x) (js_sort (\<lambda>a b. f a - f b) xs) = filter (\<lambda>x. f k = f x) xs"
    using filter_js_sort [of f "f k" xs] by (simp add: eq_commute)
qed

lemma sorted_nth_le:
  fixes f :: "'a \<Rightarrow> int"
  assumes "sorted (map f ys)" "i < j" "j < length ys"
  shows "f (ys ! i) \<le> f (ys ! j)"
  using assms sorted_nth_mono [of "map f ys" i j] by simp

text \<open>
  Claim C3 says that a chunk whose path could not be resolved sorts at or after every
  chunk with a resolved timestamp. The key of such a chunk is
  \<^verbatim>\<open>Number.MAX_SAFE_INTEGER\<close>, which is not above every number a lookup can report:
  with a modification time of \<open>2 ^ 53\<close> the chunk without a path (a combined diff
  header) is handed on strictly before the resolved one.
\<close>

theorem sentinel_before_resolved_counterexample:
  "diffsWithPriority far_future_stat (js ''diff --git a/a b/a\<newline>diff --cc x'') =
     ([js ''a''],
      Returns [\<lparr>diff = js ''diff --git a/a b/a'', priority = 2 ^ 53\<rparr>,
               \<lparr>diff = js ''diff --cc x'', priority = MAX_SAFE_INTEGER\<rparr>]) \<and>
   prioritize far_future_stat (js ''diff --git a/a b/a\<newline>diff --cc x'') =
     ([js ''a''], Returns [js ''diff --cc x'', js ''diff --git a/a b/a''])"
  by code_simp

text \<open>
  Claim C3, amended: for every sequence of chunks with their priority keys, the output
  is the stable ascending sort of the input by key. It is a permutation of the input
  chunks, chunks with equal keys keep their relative order, and every chunk whose key
  is below the sentinel \<open>2 ^ 53 - 1\<close> comes before every chunk with the sentinel key
  (so an unresolved chunk sorts at or after every chunk whose resolved timestamp does
  not exceed the sentinel).
\<close>

theorem sort_diffs_stable_sort:
  "sort_diffs dwp = map diff (sort_key priority dwp) \<and>
   mset (js_sort (\<lambda>a b. priority a - priority b) dwp) = mset dwp \<and>
   mset (sort_diffs dwp) = mset (map diff dwp) \<and>
   length (sort_diffs dwp) = length dwp \<and>
   (\<forall>k. filter (\<lambda>c. priority c = k) (js_sort (\<lambda>a b. priority a - priority b) dwp) =
        filter (\<lambda>c. priority c = k) dwp) \<and>
   (\<forall>i j. i < length dwp \<longrightarrow> j < length dwp \<longrightarrow>
      priority (js_sort (\<lambda>a b. priority a - priority b) dwp ! i) = MAX_SAFE_INTEGER \<longrightarrow>
      priority (js_sort (\<lambda>a b. priority a - priority b) dwp ! j) < MAX_SAFE_INTEGER \<longrightarrow>
      j < i)"
proof -
  let ?out = "js_sort (\<lambda>a b. priority a - priority b) dwp"
  have m: "mset ?out = mset dwp" by (rule mset_js_sort)
  have len: "length ?out = length dwp" using m by (metis size_mset)
  have s: "sorted (map priority ?out)" by (rule sorted_js_sort)
  have a: "sort_diffs dwp = map diff (sort_key priority dwp)"
    by (simp add: sort_diffs_def js_sort_eq_sort_key)
  have b: "mset (sort_diffs dwp) = mset (map diff dwp)"
    using arg_cong [OF m, of "image_mset diff"] by (simp add: sort_diffs_def)
  have c: "length (sort_diffs dwp) = length dwp"
    using len by (simp add: sort_diffs_def)
  have d: "\<forall>k. filter (\<lambda>c. priority c = k) ?out = filter (\<lambda>c. priority c = k) dwp"
    by (simp add: filter_js_sort)
  have e: "j < i" if "i < length dwp" "j < length dwp"
    "priority (?out ! i) = MAX_SAFE_INTEGER" "priority (?out ! j) < MAX_SAFE_INTEGER" for i j
  proof (rule ccontr)
    assume "\<not> j < i"
    with that have ij: "i < j" by (cases "i = j") auto
    from that len have "j < length ?out" by simp
    from sorted_nth_le [OF s ij this]
    have "priority (?out ! i) \<le> priority (?out ! j)" .
    with that show False by simp
  qed
  from a b c d e m show ?thesis by blast
qed

theorem sort_diffs_stable_sort_witness:
  "sort_diffs three_chunks =
     [js ''diff --git a/b b/b'', js ''diff --git a/a b/a'', js ''diff --cc x''] \<and>
   (2::nat) < length three_chunks \<and> (0::nat) < length three_chunks \<and>
   priority (js_sort (\<lambda>a b. priority a - priority b) three_chunks ! 2) = MAX_SAFE_INTEGER \<and>
   priority (js_sort (\<lambda>a b. priority a - priority b) three_chunks ! 0) < MAX_SAFE_INTEGER \<and>
   (0::nat) < 2"
  using sort_diffs_stable_sort [of three_chunks]
  by (simp add: three_chunks_def sort_diffs_def js_sort_def MAX_SAFE_INTEGER_def)

section \<open>Properties of the prioritization\<close>

lemma sort_diffs_single: "sort_diffs [c] = [diff c]"
  by (simp add: sort_diffs_def js_sort_def)

text \<open>
  Claim C8 says that a diff without a file boundary yields an empty sequence of chunks.
  The split of a string in which the separator does not occur is the string itself,
  as the only piece: a one-line diff without a header is handed on as one chunk.
\<close>

theorem no_boundary_empty_counterexample:
  "count_boundaries (js ''+added line'') = 0 \<and>
   prioritize far_future_stat (js ''+added line'') = ([], Returns [js ''+added line'']) \<and>
   snd (prioritize far_future_stat (js ''+added line'')) \<noteq> Returns []"
  by code_simp

text \<open>
  Claim C8, amended: for every diff string without a file boundary, the split yields
  exactly one chunk, the whole diff, and the prioritization yields the one-element
  sequence holding that chunk, without error, when the header of the chunk gives no
  path (no lookup is made) or the modification time of its path is resolved.
\<close>

theorem no_boundary_single_chunk:
  assumes "count_boundaries D = 0"
  shows "split_diff D = [D] \<and>
    (regex_exec D = None \<or> regex_exec D = Some [] \<longrightarrow> prioritize stat D = ([], Returns [D])) \<and>
    (\<forall>p t. regex_exec D = Some p \<longrightarrow> p \<noteq> [] \<longrightarrow> stat p = Returns t \<longrightarrow>
       prioritize stat D = ([p], Returns [D]))"
proof -
  have s: "split_diff D = [D]"
    using assms by (simp add: split_diff_def split_loop_no_boundary)
  then show ?thesis
    by (auto simp: prioritize_def diffsWithPriority_def chunk_priority_def sort_diffs_single)
qed

theorem no_boundary_single_chunk_witness:
  "count_boundaries (js ''diff --git a/a b/a\<newline>+1'') = 0 \<and>
   regex_exec (js ''diff --git a/a b/a\<newline>+1'') = Some (js ''a'') \<and>
   js ''a'' \<noteq> [] \<and> far_future_stat (js ''a'') = Returns (2 ^ 53) \<and>
   prioritize far_future_stat (js ''diff --git a/a b/a\<newline>+1'') =
     ([js ''a''], Returns [js ''diff --git a/a b/a\<newline>+1''])"
proof -
  have h: "count_boundaries (js ''diff --git a/a b/a\<newline>+1'') = 0"
    by code_simp
  have r: "regex_exec (js ''diff --git a/a b/a\<newline>+1'') = Some (js ''a'')"
    by code_simp
  have n: "js ''a'' \<noteq> []"
    by (simp add: js_def)
  have f: "far_future_stat (js ''a'') = Returns (2 ^ 53)"
    by (simp add: far_future_stat_def)
  from no_boundary_single_chunk [OF h, of far_future_stat] r n f h show ?thesis
    by blast
qed









section \<open>Properties of \<open>generateCommitMessage\<close>\<close>

text \<open>Of two entries of which one is nested in the other, the parent is sorted first.\<close>

lemma two_items_parent_first:
  assumes "startsWith (detail child) (detail parent)"
    and "\<not> startsWith (detail parent) (detail child)"
  shows "js_sort (compare_items lc) [parent, child] = [parent, child] \<and>
         js_sort (compare_items lc) [child, parent] = [parent, child]"
  using assms by (simp add: js_sort_def compare_items_def)

lemma compare_items_not_transitive:
  "compare_items compare_code_units
     \<lparr>label = js ''zeta'', detail = js ''/work/zeta'', picked = True, item_value = 0\<rparr>
     \<lparr>label = js ''api'', detail = js ''/work/zeta/api'', picked = False, item_value = 2\<rparr> < 0 \<and>
   compare_items compare_code_units
     \<lparr>label = js ''api'', detail = js ''/work/zeta/api'', picked = False, item_value = 2\<rparr>
     \<lparr>label = js ''mid'', detail = js ''/work/mid'', picked = False, item_value = 1\<rparr> < 0 \<and>
   compare_items compare_code_units
     \<lparr>label = js ''mid'', detail = js ''/work/mid'', picked = False, item_value = 1\<rparr>
     \<lparr>label = js ''zeta'', detail = js ''/work/zeta'', picked = True, item_value = 0\<rparr> < 0"
  by code_simp

text \<open>
  Claim C9 says that in the quick pick a repository comes before every repository
  nested in it. The comparison function puts the parent of a pair first
  (\<open>two_items_parent_first\<close>) but orders every other pair by name, and the two rules
  together are not transitive (\<open>compare_items_not_transitive\<close>): \<^verbatim>\<open>/work/zeta\<close> is
  before \<^verbatim>\<open>/work/zeta/api\<close> as its parent, \<^verbatim>\<open>api\<close> before \<^verbatim>\<open>mid\<close> and \<^verbatim>\<open>mid\<close>
  before \<^verbatim>\<open>zeta\<close> by name. Listed as parent, unrelated, child, each of the three
  repositories is less than its left neighbour, so a sort has no reason to compare
  the parent with the child: the insertion sort reverses the list as it goes, and so
  does a sort that looks for a descending run first. The child is presented first and
  the parent last.
\<close>

theorem quick_pick_child_before_parent:
  "fst (select_repo posix_host nested_repos) =
     [ShowQuickPick
       [\<lparr>label = js ''api'', detail = js ''/work/zeta/api'', picked = False, item_value = 2\<rparr>,
        \<lparr>label = js ''mid'', detail = js ''/work/mid'', picked = False, item_value = 1\<rparr>,
        \<lparr>label = js ''zeta'', detail = js ''/work/zeta'', picked = True, item_value = 0\<rparr>]]"
  by code_simp

text \<open>
  The index that the selection yields is one of \<^verbatim>\<open>gitApi.repositories\<close>, so
  \<open>repos ! i\<close> in \<open>generateCommitMessage\<close> is the repository selected.
\<close>

lemma set_js_sort: "set (js_sort cmp xs) = set xs"
  using mset_js_sort [of cmp xs] by (metis set_mset_mset)

lemma quick_pick_items_index:
  assumes "item \<in> set (quick_pick_items h repos)"
  shows "item_value item < length repos \<and>
         detail item = rootUri_fsPath (repos ! item_value item)"
  using assms
  by (auto simp: quick_pick_items_def set_js_sort in_set_enumerate_eq)

lemma select_repo_index:
  assumes "select_repo h repos = (picking, Some i)" and "repos \<noteq> []"
  shows "i < length repos"
proof (cases "length repos = 1")
  case True
  with assms show ?thesis by (simp add: select_repo_def)
next
  case False
  with assms(1) obtain k where "k < length (quick_pick_items h repos)"
    and "i = item_value (quick_pick_items h repos ! k)"
    by (auto simp: select_repo_def Let_def split: option.splits if_splits)
  then show ?thesis
    using quick_pick_items_index [of "quick_pick_items h repos ! k" h repos] by simp
qed

lemma trim_empty_iff: "trim s = [] \<longleftrightarrow> list_all is_trimmed_char s"
proof -
  have "trim s = [] \<longleftrightarrow> (\<forall>x\<in>set (dropWhile is_trimmed_char s). is_trimmed_char x)"
    by (simp add: trim_def dropWhile_eq_Nil_conv)
  also have "\<dots> \<longleftrightarrow> dropWhile is_trimmed_char s = []"
  proof
    assume a: "\<forall>x\<in>set (dropWhile is_trimmed_char s). is_trimmed_char x"
    show "dropWhile is_trimmed_char s = []"
    proof (rule ccontr)
      assume n: "dropWhile is_trimmed_char s \<noteq> []"
      then have "\<not> is_trimmed_char (hd (dropWhile is_trimmed_char s))"
        by (rule hd_dropWhile)
      moreover from n have "hd (dropWhile is_trimmed_char s) \<in> set (dropWhile is_trimmed_char s)"
        by simp
      ultimately show False using a by blast
    qed
  next
    assume e: "dropWhile is_trimmed_char s = []"
    show "\<forall>x\<in>set (dropWhile is_trimmed_char s). is_trimmed_char x"
      unfolding e by simp
  qed
  also have "\<dots> \<longleftrightarrow> list_all is_trimmed_char s"
    by (simp add: dropWhile_eq_Nil_conv list_all_iff)
  finally show ?thesis .
qed

lemma select_repo_events:
  "select_repo h repos = (picking, sel) \<Longrightarrow>
   picking = [] \<or> picking = [ShowQuickPick (quick_pick_items h repos)]"
  by (auto simp: select_repo_def Let_def split: if_splits)

text \<open>
  The command from the selection of the repository with index \<open>i\<close> on, when both
  diffs are delivered.
\<close>

lemma generateCommitMessage_selected:
  assumes "repos \<noteq> []" and "select_repo h repos = (picking, Some i)"
    and "diff_cached (repos ! i) = Returns staged"
    and "diff_uncached (repos ! i) = Returns unstaged"
  shows "generateCommitMessage h (Some repos) =
    (if trim staged = [] then
       (if trim unstaged = [] then
          \<lparr>events = picking @ [RepoDiff i True, RepoDiff i False],
           repos_after = repos, completion = Returns ()\<rparr>
        else
          (progress_callback h repos i (trim unstaged))
            \<lparr>events :=
               picking @ [RepoDiff i True, RepoDiff i False] @
               [ExecuteCommand (js ''workbench.view.scm''),
                WithProgress (js ''Generating commit message...'')] @
               events (progress_callback h repos i (trim unstaged))\<rparr>)
     else
       (progress_callback h repos i (trim staged))
         \<lparr>events :=
            picking @ [RepoDiff i True] @
            [ExecuteCommand (js ''workbench.view.scm''),
             WithProgress (js ''Generating commit message...'')] @
            events (progress_callback h repos i (trim staged))\<rparr>)"
  using assms by (simp add: generateCommitMessage_def get_diff_def Let_def)

text \<open>
  Claim C6: when the staged diff and the unstaged diff of the selected repository are
  both empty, the command asks for the staged diff, then for the unstaged diff, and
  ends: the agent is not called, no commit input box is written, and the repositories
  are as before.
\<close>

theorem empty_diffs_no_agent_call:
  assumes "repos \<noteq> []" and "select_repo h repos = (picking, Some i)"
    and "diff_cached (repos ! i) = Returns []"
    and "diff_uncached (repos ! i) = Returns []"
  shows "generateCommitMessage h (Some repos) =
      \<lparr>events = picking @ [RepoDiff i True, RepoDiff i False],
       repos_after = repos, completion = Returns ()\<rparr> \<and>
    (\<forall>diffs. AgentGenerateCommitMessage diffs \<notin> set (events (generateCommitMessage h (Some repos)))) \<and>
    (\<forall>k message. SetInputBoxValue k message \<notin> set (events (generateCommitMessage h (Some repos)))) \<and>
    repos_after (generateCommitMessage h (Some repos)) = repos"
proof -
  have t: "trim [] = []"
    by (simp add: trim_def)
  have g: "generateCommitMessage h (Some repos) =
      \<lparr>events = picking @ [RepoDiff i True, RepoDiff i False],
       repos_after = repos, completion = Returns ()\<rparr>"
    using generateCommitMessage_selected [OF assms] by (simp add: t)
  from select_repo_events [OF assms(2)] g show ?thesis by auto
qed

theorem empty_diffs_no_agent_call_witness:
  "[clean_repo] \<noteq> [] \<and>
   select_repo posix_host [clean_repo] = ([], Some 0) \<and>
   diff_cached ([clean_repo] ! 0) = Returns [] \<and>
   diff_uncached ([clean_repo] ! 0) = Returns [] \<and>
   generateCommitMessage posix_host (Some [clean_repo]) =
     \<lparr>events = [RepoDiff 0 True, RepoDiff 0 False],
      repos_after = [clean_repo], completion = Returns ()\<rparr> \<and>
   map inputBox_value (repos_after (generateCommitMessage posix_host (Some [clean_repo]))) =
     [js ''wip'']"
proof -
  have h1: "[clean_repo] \<noteq> []"
    by simp
  have h2: "select_repo posix_host [clean_repo] = ([], Some 0)"
    by (simp add: select_repo_def)
  have h3: "diff_cached ([clean_repo] ! 0) = Returns []"
    by (simp add: clean_repo_def)
  have h4: "diff_uncached ([clean_repo] ! 0) = Returns []"
    by (simp add: clean_repo_def)
  have v: "inputBox_value clean_repo = js ''wip''"
    by (simp add: clean_repo_def)
  from empty_diffs_no_agent_call [OF h1 h2 h3 h4] h1 h2 h3 h4 v show ?thesis
    by simp
qed

text \<open>
  Claim C10: the test for an empty diff is made on the trimmed text. When the staged
  diff of the selected repository is white space only, the unstaged diff is asked for;
  when that is white space only too, the command ends there; otherwise the progress
  callback, which splits its argument, is run on the trimmed unstaged diff. When the
  staged diff is not white space only, it is run on the trimmed staged diff.
\<close>

theorem whitespace_diff_is_empty:
  assumes "repos \<noteq> []" and "select_repo h repos = (picking, Some i)"
    and "diff_cached (repos ! i) = Returns staged"
    and "diff_uncached (repos ! i) = Returns unstaged"
  shows "generateCommitMessage h (Some repos) =
    (if list_all is_trimmed_char staged then
       (if list_all is_trimmed_char unstaged then
          \<lparr>events = picking @ [RepoDiff i True, RepoDiff i False],
           repos_after = repos, completion = Returns ()\<rparr>
        else
          (progress_callback h repos i (trim unstaged))
            \<lparr>events :=
               picking @ [RepoDiff i True, RepoDiff i False] @
               [ExecuteCommand (js ''workbench.view.scm''),
                WithProgress (js ''Generating commit message...'')] @
               events (progress_callback h repos i (trim unstaged))\<rparr>)
     else
       (progress_callback h repos i (trim staged))
         \<lparr>events :=
            picking @ [RepoDiff i True] @
            [ExecuteCommand (js ''workbench.view.scm''),
             WithProgress (js ''Generating commit message...'')] @
            events (progress_callback h repos i (trim staged))\<rparr>)"
  using generateCommitMessage_selected [OF assms] by (simp add: trim_empty_iff)

theorem whitespace_diff_is_empty_witness:
  "list_all is_trimmed_char (js '' \<newline>'') \<and>
   list_all is_trimmed_char (js ''\<newline>\<newline>'') \<and>
   generateCommitMessage posix_host (Some [blank_repo]) =
     \<lparr>events = [RepoDiff 0 True, RepoDiff 0 False],
      repos_after = [blank_repo], completion = Returns ()\<rparr> \<and>
   \<not> list_all is_trimmed_char (js ''\<newline>diff --git a/kept.txt b/kept.txt\<newline>+1\<newline>\<newline>'') \<and>
   generateCommitMessage posix_host (Some [padded_repo]) =
     \<lparr>events =
        [RepoDiff 0 True, RepoDiff 0 False,
         ExecuteCommand (js ''workbench.view.scm''),
         WithProgress (js ''Generating commit message...''),
         FsStat (js ''/work/app'') (js ''kept.txt''),
         AgentGenerateCommitMessage [js ''diff --git a/kept.txt b/kept.txt\<newline>+1''],
         SetInputBoxValue 0 (js ''update kept.txt'')],
      repos_after = [padded_repo\<lparr>inputBox_value := js ''update kept.txt''\<rparr>],
      completion = Returns ()\<rparr>"
proof -
  have b1: "[blank_repo] \<noteq> []" and p1: "[padded_repo] \<noteq> []"
    by simp_all
  have b2: "select_repo posix_host [blank_repo] = ([], Some 0)"
    and p2: "select_repo posix_host [padded_repo] = ([], Some 0)"
    by (simp_all add: select_repo_def)
  have b3: "diff_cached ([blank_repo] ! 0) = Returns (js '' \<newline>'')"
    and b4: "diff_uncached ([blank_repo] ! 0) = Returns (js ''\<newline>\<newline>'')"
    by (simp_all add: blank_repo_def)
  have p3: "diff_cached ([padded_repo] ! 0) = Returns (js '' \<newline>'')"
    and p4: "diff_uncached ([padded_repo] ! 0) =
      Returns (js ''\<newline>diff --git a/kept.txt b/kept.txt\<newline>+1\<newline>\<newline>'')"
    by (simp_all add: padded_repo_def)
  have w1: "list_all is_trimmed_char (js '' \<newline>'')"
    and w2: "list_all is_trimmed_char (js ''\<newline>\<newline>'')"
    and w3: "\<not> list_all is_trimmed_char
      (js ''\<newline>diff --git a/kept.txt b/kept.txt\<newline>+1\<newline>\<newline>'')"
    by code_simp+
  have r: "progress_callback posix_host [padded_repo] 0
      (trim (js ''\<newline>diff --git a/kept.txt b/kept.txt\<newline>+1\<newline>\<newline>'')) =
     \<lparr>events =
        [FsStat (js ''/work/app'') (js ''kept.txt''),
         AgentGenerateCommitMessage [js ''diff --git a/kept.txt b/kept.txt\<newline>+1''],
         SetInputBoxValue 0 (js ''update kept.txt'')],
      repos_after = [padded_repo\<lparr>inputBox_value := js ''update kept.txt''\<rparr>],
      completion = Returns ()\<rparr>"
    by code_simp
  from whitespace_diff_is_empty [OF b1 b2 b3 b4] whitespace_diff_is_empty [OF p1 p2 p3 p4]
    w1 w2 w3 r
  show ?thesis by simp
qed









section \<open>Properties of \<open>openAuthPage\<close>\<close>

lemma call_hook_Some: "call_hook ev (Some r) = ([ev], r)"
  by (simp add: call_hook_def)

lemma try_block_events:
  assumes "onAuthStart env = Some s"
  shows "\<exists>mid. fst (try_block env) = OnAuthStart # mid \<and>
           OnAuthStart \<notin> set mid \<and> OnAuthEnd \<notin> set mid"
  using assms
  by (auto simp: try_block_def call_hook_def Let_def split: completion.splits option.splits)

lemma catch_block_events:
  "OnAuthStart \<notin> set (fst (catch_block e)) \<and> OnAuthEnd \<notin> set (fst (catch_block e))"
  by (auto simp: catch_block_def split: thrown.splits)

text \<open>
  Claim C4: when the caller supplies both hooks, every run of the authorization calls
  the start hook exactly once, as the first thing it does, and the end hook exactly
  once, as the last thing it does, whatever happens in between: success, the agent
  being authorized already, failure, cancellation, or an exception of the hook or of
  the \<^verbatim>\<open>catch\<close> block itself.
\<close>

theorem auth_hooks_once_in_order:
  assumes "onAuthStart env = Some s" and "onAuthEnd env = Some f"
  shows "(\<exists>mid. auth_events (openAuthPage env) = OnAuthStart # mid @ [OnAuthEnd] \<and>
            OnAuthStart \<notin> set mid \<and> OnAuthEnd \<notin> set mid) \<and>
         count_list (auth_events (openAuthPage env)) OnAuthStart = 1 \<and>
         count_list (auth_events (openAuthPage env)) OnAuthEnd = 1"
proof -
  obtain mid where m: "fst (try_block env) = OnAuthStart # mid"
    "OnAuthStart \<notin> set mid" "OnAuthEnd \<notin> set mid"
    using try_block_events [OF assms(1)] by blast
  obtain r1 where t: "try_block env = (OnAuthStart # mid, r1)"
    using m(1) by (cases "try_block env") auto
  have "\<exists>mid'. auth_events (openAuthPage env) = OnAuthStart # mid' @ [OnAuthEnd] \<and>
          OnAuthStart \<notin> set mid' \<and> OnAuthEnd \<notin> set mid'"
  proof (cases r1)
    case (Returns x)
    with t assms(2) m have "auth_events (openAuthPage env) = OnAuthStart # mid @ [OnAuthEnd]"
      by (simp add: openAuthPage_def call_hook_Some)
    with m show ?thesis by blast
  next
    case (Throws e)
    obtain caught r2 where c: "catch_block e = (caught, r2)"
      by (cases "catch_block e") auto
    with catch_block_events [of e] have n: "OnAuthStart \<notin> set caught" "OnAuthEnd \<notin> set caught"
      by auto
    from t Throws c assms(2)
    have "auth_events (openAuthPage env) = OnAuthStart # (mid @ caught) @ [OnAuthEnd]"
      by (simp add: openAuthPage_def call_hook_Some)
    moreover from m n have "OnAuthStart \<notin> set (mid @ caught)" "OnAuthEnd \<notin> set (mid @ caught)"
      by auto
    ultimately show ?thesis by blast
  qed
  then obtain mid' where e: "auth_events (openAuthPage env) = OnAuthStart # mid' @ [OnAuthEnd]"
    and n: "OnAuthStart \<notin> set mid'" "OnAuthEnd \<notin> set mid'"
    by blast
  from n have "count_list mid' OnAuthStart = 0" "count_list mid' OnAuthEnd = 0"
    by (simp_all add: count_list_0_iff)
  with e have "count_list (auth_events (openAuthPage env)) OnAuthStart = 1"
    "count_list (auth_events (openAuthPage env)) OnAuthEnd = 1"
    by simp_all
  with e n show ?thesis by blast
qed

theorem auth_hooks_once_in_order_witness:
  "onAuthStart cancelled_env = Some (Returns ()) \<and>
   onAuthEnd cancelled_env = Some (Returns ()) \<and>
   count_list (auth_events (openAuthPage cancelled_env)) OnAuthStart = 1 \<and>
   count_list (auth_events (openAuthPage cancelled_env)) OnAuthEnd = 1 \<and>
   hd (auth_events (openAuthPage cancelled_env)) = OnAuthStart \<and>
   last (auth_events (openAuthPage cancelled_env)) = OnAuthEnd"
proof -
  have h1: "onAuthStart cancelled_env = Some (Returns ())"
    and h2: "onAuthEnd cancelled_env = Some (Returns ())"
    by (simp_all add: cancelled_env_def)
  from auth_hooks_once_in_order [OF h1 h2] h1 h2 show ?thesis
    by auto
qed

text \<open>
  Claim C5: when the start hook has not thrown and the awaited request of the
  authorization URL, or the awaited wait for the token, rejects with an error named
  \<^verbatim>\<open>AbortError\<close>, the run ends in \<open>Cancelled\<close> and none of the three notifications
  of the \<^verbatim>\<open>notifications\<close> module is shown.
\<close>

theorem abort_is_cancelled_silently:
  assumes "\<forall>e. onAuthStart env \<noteq> Some (Throws e)"
    and "requestAuthUrl env = Throws (ThrownObject (Some (js ''AbortError''))) \<or>
         (\<exists>url. requestAuthUrl env = Returns (Some url) \<and>
            waitForAuthToken env (code url) = Throws (ThrownObject (Some (js ''AbortError''))))"
  shows "reached (openAuthPage env) = Some Cancelled \<and>
         \<not> list_ex is_notification (auth_events (openAuthPage env))"
  using assms
  by (auto simp: openAuthPage_def try_block_def catch_block_def call_hook_def Let_def
      is_notification_def split: completion.splits option.splits)

theorem abort_is_cancelled_silently_witness:
  "onAuthStart cancelled_env = Some (Returns ()) \<and>
   requestAuthUrl cancelled_env =
     Returns (Some \<lparr>authUrl = js ''https://app.tabbyml.com/auth'', code = js ''c0de''\<rparr>) \<and>
   waitForAuthToken cancelled_env (js ''c0de'') = Throws (ThrownObject (Some (js ''AbortError''))) \<and>
   reached (openAuthPage cancelled_env) = Some Cancelled \<and>
   \<not> list_ex is_notification (auth_events (openAuthPage cancelled_env))"
proof -
  have h1: "onAuthStart cancelled_env = Some (Returns ())"
    and h2: "requestAuthUrl cancelled_env =
      Returns (Some \<lparr>authUrl = js ''https://app.tabbyml.com/auth'', code = js ''c0de''\<rparr>)"
    and h3: "waitForAuthToken cancelled_env (js ''c0de'') =
      Throws (ThrownObject (Some (js ''AbortError'')))"
    by (simp_all add: cancelled_env_def)
  from h1 have a: "\<forall>e. onAuthStart cancelled_env \<noteq> Some (Throws e)"
    by simp
  from h2 h3 have b: "requestAuthUrl cancelled_env = Throws (ThrownObject (Some (js ''AbortError''))) \<or>
      (\<exists>url. requestAuthUrl cancelled_env = Returns (Some url) \<and>
         waitForAuthToken cancelled_env (code url) = Throws (ThrownObject (Some (js ''AbortError''))))"
    by simp
  from abort_is_cancelled_silently [OF a b] h1 h2 h3 show ?thesis
    by simp
qed

text \<open>
  Claim C7: when the start hook has not thrown and the agent answers the request with
  \<^verbatim>\<open>null\<close>, the run consists of the progress report, the request, one reading of the
  status and one notification, between the hooks. With the status \<^verbatim>\<open>ready\<close> it is
  the already-authorized notification, not the one of a fresh success, and the run
  ends in \<open>Succeeded\<close>; with any other status it is the failure notification and the
  run ends in \<open>Failed\<close>. No browser is opened and no token is waited for.
\<close>

theorem no_auth_url_outcomes:
  assumes "\<forall>e. onAuthStart env \<noteq> Some (Throws e)"
    and "requestAuthUrl env = Returns None"
  shows "auth_events (openAuthPage env) =
      fst (call_hook OnAuthStart (onAuthStart env)) @
      [ProgressReport (js ''Generating authorization url...''), RequestAuthUrl, GetStatus,
       (if getStatus_without_url env = js ''ready''
        then ShowInformationWhenStartAuthButAlreadyAuthorized
        else ShowInformationWhenAuthFailed)] @
      fst (call_hook OnAuthEnd (onAuthEnd env)) \<and>
    reached (openAuthPage env) =
      Some (if getStatus_without_url env = js ''ready'' then Succeeded else Failed) \<and>
    (\<forall>u. OpenExternal u \<notin> set (auth_events (openAuthPage env))) \<and>
    (\<forall>c. WaitForAuthToken c \<notin> set (auth_events (openAuthPage env))) \<and>
    ShowInformationAuthSuccess \<notin> set (auth_events (openAuthPage env))"
  using assms
  by (auto simp: openAuthPage_def try_block_def call_hook_def Let_def
      split: completion.splits option.splits)

theorem no_auth_url_outcomes_witness:
  "onAuthStart authorized_env = Some (Returns ()) \<and>
   requestAuthUrl authorized_env = Returns None \<and>
   getStatus_without_url authorized_env = js ''ready'' \<and>
   auth_events (openAuthPage authorized_env) =
     [OnAuthStart, ProgressReport (js ''Generating authorization url...''), RequestAuthUrl,
      GetStatus, ShowInformationWhenStartAuthButAlreadyAuthorized, OnAuthEnd] \<and>
   reached (openAuthPage authorized_env) = Some Succeeded"
proof -
  have h1: "onAuthStart authorized_env = Some (Returns ())"
    and h2: "requestAuthUrl authorized_env = Returns None"
    and h3: "getStatus_without_url authorized_env = js ''ready''"
    and h4: "onAuthEnd authorized_env = Some (Returns ())"
    by (simp_all add: authorized_env_def)
  from h1 have a: "\<forall>e. onAuthStart authorized_env \<noteq> Some (Throws e)"
    by simp
  from no_auth_url_outcomes [OF a h2] h1 h2 h3 h4 show ?thesis
    by (simp add: call_hook_Some)
qed

end
